theory Spec2Isabelle
  imports Main "HOL-Library.Multiset" "HOL-Library.Sublist"
begin

section \<open>The hackathon kiosk view (\<^verbatim>\<open>app/routes/tv.tsx\<close>)\<close>

text \<open>
  The view derives everything it shows from a polled data snapshot and a clock value.
  Its functions are embedded here one by one: the derivations as functions of their
  arguments, the poll as a function of what the five requests do and of the state of the
  view. What the TypeScript takes from the JavaScript platform (the parser behind
  \<^verbatim>\<open>new Date(string)\<close> and the constructor \<^verbatim>\<open>new URL(path, base)\<close>) is a parameter of
  the functions that use it.
\<close>

subsection \<open>JavaScript numbers and dates\<close>

text \<open>
  Every number the derivations compute is \<^verbatim>\<open>NaN\<close> or a double whose value is an integer:
  a time value in milliseconds, the difference of two time values, a floored quotient, a
  remainder. A time value is at most \<open>8.64 * 10 ^ 15\<close> in magnitude, below \<open>2 ^ 53\<close>, so it
  is its integer exactly; the difference of two time values can exceed \<open>2 ^ 53\<close> and is
  then rounded to a double.
\<close>

datatype number = NaN | Finite int

fun isNaN :: "number \<Rightarrow> bool" where
  "isNaN NaN = True"
| "isNaN (Finite _) = False"

text \<open>The relational operators: a comparison with \<^verbatim>\<open>NaN\<close> is false.\<close>

fun num_lt :: "number \<Rightarrow> number \<Rightarrow> bool" where
  "num_lt (Finite a) (Finite b) = (a < b)"
| "num_lt _ _ = False"

fun num_le :: "number \<Rightarrow> number \<Rightarrow> bool" where
  "num_le (Finite a) (Finite b) = (a \<le> b)"
| "num_le _ _ = False"

fun num_gt :: "number \<Rightarrow> number \<Rightarrow> bool" where
  "num_gt (Finite a) (Finite b) = (a > b)"
| "num_gt _ _ = False"

fun num_ge :: "number \<Rightarrow> number \<Rightarrow> bool" where
  "num_ge (Finite a) (Finite b) = (a \<ge> b)"
| "num_ge _ _ = False"

text \<open>
  The double nearest to an integer of magnitude below \<open>2 ^ 54\<close>. Up to \<open>2 ^ 53\<close> it is the
  integer itself. Above, the doubles are the even integers; an odd integer lies midway
  between two of them, and the one with the even significand, a multiple of 4, is taken.
\<close>

definition round_double :: "int \<Rightarrow> int" where
  "round_double x =
     (if \<bar>x\<bar> \<le> 9007199254740992 then x
      else if x mod 4 = 1 then x - 1
      else if x mod 4 = 3 then x + 1
      else x)"

text \<open>
  \<^verbatim>\<open>Math.floor(a / k)\<close> for \<open>k\<close> one of the constants 1000, 3600 and 60, on the values the
  code divides: a difference of two time values by 1000 (at most \<open>1.728 * 10 ^ 16\<close>, a
  quotient below \<open>2 ^ 44\<close>, whose rounding error is less than \<open>2 ^ -10\<close> and so less than
  the distance \<open>1 / 1000\<close> of an inexact quotient to the next integer), and the seconds
  so obtained or their remainder by 3600 or 60. There the floor of the double quotient is
  the floor of the exact one.
\<close>

fun floor_div :: "number \<Rightarrow> int \<Rightarrow> number" where
  "floor_div (Finite a) k = Finite (a div k)"
| "floor_div NaN k = NaN"

text \<open>\<^verbatim>\<open>a % k\<close> for a positive integer constant \<open>k\<close>: the result has the sign of \<open>a\<close>.\<close>

fun num_rem :: "number \<Rightarrow> int \<Rightarrow> number" where
  "num_rem (Finite a) k = Finite (sgn a * (\<bar>a\<bar> mod k))"
| "num_rem NaN k = NaN"

text \<open>\<^verbatim>\<open>Math.max(0, a)\<close>.\<close>

fun Math_max0 :: "number \<Rightarrow> number" where
  "Math_max0 (Finite a) = Finite (max 0 a)"
| "Math_max0 NaN = NaN"

text \<open>
  A \<^verbatim>\<open>Date\<close> object holds a time value: \<^verbatim>\<open>NaN\<close> for an invalid date, or an integer number
  of milliseconds since the epoch, of magnitude at most \<open>8.64 * 10 ^ 15\<close>. The
  constructor \<^verbatim>\<open>new Date(value)\<close> clips a number outside this range to \<^verbatim>\<open>NaN\<close>. Comparing
  two dates compares their time values.
\<close>

fun time_value :: "number \<Rightarrow> bool" where
  "time_value NaN = True"
| "time_value (Finite t) = (\<bar>t\<bar> \<le> 8640000000000000)"

typedef Date = "{v. time_value v}"
  morphisms getTime Abs_Date
  by (rule exI [of _ NaN]) simp

definition TimeClip :: "number \<Rightarrow> number" where
  "TimeClip v = (if time_value v then v else NaN)"

definition Date :: "number \<Rightarrow> Date" where
  "Date v = Abs_Date (TimeClip v)"

text \<open>\<^verbatim>\<open>a.getTime() - b.getTime()\<close>: the difference of two time values, as a double.\<close>

definition time_diff :: "Date \<Rightarrow> Date \<Rightarrow> number" where
  "time_diff a b =
     (case getTime a of
        NaN \<Rightarrow> NaN
      | Finite x \<Rightarrow> (case getTime b of NaN \<Rightarrow> NaN | Finite y \<Rightarrow> Finite (round_double (x - y))))"

definition date_lt :: "Date \<Rightarrow> Date \<Rightarrow> bool" where
  "date_lt a b = num_lt (getTime a) (getTime b)"

definition date_le :: "Date \<Rightarrow> Date \<Rightarrow> bool" where
  "date_le a b = num_le (getTime a) (getTime b)"

definition date_gt :: "Date \<Rightarrow> Date \<Rightarrow> bool" where
  "date_gt a b = num_gt (getTime a) (getTime b)"

definition date_ge :: "Date \<Rightarrow> Date \<Rightarrow> bool" where
  "date_ge a b = num_ge (getTime a) (getTime b)"

subsection \<open>Strings of numbers\<close>

definition digit_char :: "nat \<Rightarrow> char" where
  "digit_char d = ''0123456789'' ! d"

fun dec :: "nat \<Rightarrow> string" where
  "dec n = (if n < 10 then [digit_char n] else dec (n div 10) @ [digit_char (n mod 10)])"

declare dec.simps [simp del]

text \<open>\<^verbatim>\<open>String(a)\<close> for an integer below \<open>10 ^ 21\<close> in absolute value, or \<^verbatim>\<open>NaN\<close>.\<close>

fun String_of :: "number \<Rightarrow> string" where
  "String_of NaN = ''NaN''"
| "String_of (Finite a) = (if a < 0 then CHR ''-'' # dec (nat (- a)) else dec (nat a))"

text \<open>\<^verbatim>\<open>s.padStart(n, c)\<close> for a one-character filler.\<close>

definition padStart :: "nat \<Rightarrow> char \<Rightarrow> string \<Rightarrow> string" where
  "padStart n c s = replicate (n - length s) c @ s"

subsection \<open>The data model\<close>

datatype SponsorLevel = root | admin | user | collaborator

record Sponsor =
  sponsor_id :: int
  name :: string
  level :: SponsorLevel
  link :: string
  logo :: string

text \<open>The fields \<^verbatim>\<open>start\<close> and \<^verbatim>\<open>end\<close> are strings, as the backend sends them.\<close>

record ScheduleItem =
  item_id :: int
  title :: string
  start :: string
  end' :: string
  location :: string
  tags :: "string list"
  description :: "string option"

record WifiInfo =
  wifi_id :: int
  ssid :: string
  password :: string

record HackingTime =
  hacking_id :: int
  hacking_start :: string
  hacking_end :: string

record AnnouncementInfo =
  announcement_id :: int
  content :: "string option"
  visible :: bool

record TvData =
  sponsors :: "Sponsor list"
  schedule :: "ScheduleItem list"
  wifi :: "WifiInfo option"
  hacking :: "HackingTime option"
  announcement :: "AnnouncementInfo option"

subsection \<open>formatCountdown\<close>

text \<open>
  \<open>new_Date\<close> is \<^verbatim>\<open>new Date(string)\<close>. The clock value \<open>now\<close> is \<^verbatim>\<open>Date | null\<close>. On an
  invalid \<open>now\<close> every comparison is false and the \<^verbatim>\<open>NaN\<close> reaches the three fields.
\<close>

definition formatCountdown :: "(string \<Rightarrow> Date) \<Rightarrow> HackingTime option \<Rightarrow> Date option \<Rightarrow> string" where
  "formatCountdown new_Date hacking_opt now_opt =
     (case hacking_opt of
        None \<Rightarrow> ''--:--:--''
      | Some h \<Rightarrow>
         (case now_opt of
            None \<Rightarrow> ''--:--:--''
          | Some now \<Rightarrow>
             (let startD = new_Date (hacking_start h);
                  endD = new_Date (hacking_end h)
              in if isNaN (getTime startD) \<or> isNaN (getTime endD) then ''--:--:--''
                 else if date_lt now startD then ''36:00:00''
                 else if date_ge now endD then ''00:00:00''
                 else
                   (let diffMs = time_diff endD now;
                        totalSeconds = Math_max0 (floor_div diffMs 1000);
                        hours = floor_div totalSeconds 3600;
                        minutes = floor_div (num_rem totalSeconds 3600) 60;
                        seconds = num_rem totalSeconds 60;
                        hh = padStart 2 (CHR ''0'') (String_of hours);
                        mm = padStart 2 (CHR ''0'') (String_of minutes);
                        ss = padStart 2 (CHR ''0'') (String_of seconds)
                    in hh @ '':'' @ mm @ '':'' @ ss))))"

text \<open>
  The spec's wording of the fourth rule: a number of seconds decomposed into hours (not
  wrapped at 24), minutes and seconds, each written in decimal and padded to two digits.
\<close>

definition two_digits :: "nat \<Rightarrow> string" where
  "two_digits n = (if n < 10 then CHR ''0'' # dec n else dec n)"

definition hms :: "nat \<Rightarrow> string" where
  "hms t = two_digits (t div 3600) @ '':'' @ two_digits (t mod 3600 div 60) @ '':''
             @ two_digits (t mod 60)"

subsection \<open>buildTimedSchedule\<close>

datatype ScheduleItemStatus = past | live | upcoming

record TimedScheduleItem = ScheduleItem +
  startDate :: Date
  endDate :: Date
  status :: ScheduleItemStatus

text \<open>The callback of \<^verbatim>\<open>schedule.map\<close>: the item's own fields are copied, three are added.\<close>

definition timedItem :: "(string \<Rightarrow> Date) \<Rightarrow> Date option \<Rightarrow> ScheduleItem \<Rightarrow> TimedScheduleItem" where
  "timedItem new_Date now_opt item =
     (let startD = new_Date (start item);
          endD = new_Date (end' item);
          st = (case now_opt of
                  None \<Rightarrow> upcoming
                | Some now \<Rightarrow>
                    if date_ge now endD then past
                    else if date_ge now startD \<and> date_lt now endD then live
                    else upcoming)
      in \<lparr>item_id = item_id item, title = title item, start = start item, end' = end' item,
          location = location item, tags = tags item, description = description item,
          startDate = startD, endDate = endD, status = st\<rparr>)"

text \<open>
  \<^verbatim>\<open>Array.prototype.sort(comparefn)\<close>. The comparator's result \<open>v\<close> places \<open>x\<close> after \<open>y\<close> when
  \<open>v > 0\<close>; ECMAScript's SortCompare reads a \<^verbatim>\<open>NaN\<close> result as \<open>0\<close>, and the sort is stable.
  Where the comparator is consistent this determines the result, whatever the engine's
  algorithm: the model inserts each element, from the last to the first, in front of the
  first element it need not follow. Where the comparator answers \<^verbatim>\<open>NaN\<close> for some pairs
  only (here: where a start does not parse), ECMAScript leaves the order to the engine,
  and the order of the model is not the engine's in general. Of such inputs only what
  holds of every arrangement of the elements is stated, and what one engine does on an
  input that is traced by hand. The elements are never more or fewer than before.
\<close>

definition SortCompare :: "('a \<Rightarrow> 'a \<Rightarrow> number) \<Rightarrow> 'a \<Rightarrow> 'a \<Rightarrow> int" where
  "SortCompare comparefn x y = (case comparefn x y of NaN \<Rightarrow> 0 | Finite v \<Rightarrow> v)"

fun sort_insert :: "('a \<Rightarrow> 'a \<Rightarrow> number) \<Rightarrow> 'a \<Rightarrow> 'a list \<Rightarrow> 'a list" where
  "sort_insert comparefn x [] = [x]"
| "sort_insert comparefn x (y # ys) =
     (if SortCompare comparefn x y > 0 then y # sort_insert comparefn x ys else x # y # ys)"

fun Array_sort :: "('a \<Rightarrow> 'a \<Rightarrow> number) \<Rightarrow> 'a list \<Rightarrow> 'a list" where
  "Array_sort comparefn [] = []"
| "Array_sort comparefn (x # xs) = sort_insert comparefn x (Array_sort comparefn xs)"

definition byStart :: "TimedScheduleItem \<Rightarrow> TimedScheduleItem \<Rightarrow> number" where
  "byStart a b = time_diff (startDate a) (startDate b)"

definition buildTimedSchedule ::
    "(string \<Rightarrow> Date) \<Rightarrow> ScheduleItem list \<Rightarrow> Date option \<Rightarrow> TimedScheduleItem list" where
  "buildTimedSchedule new_Date sched now_opt =
     Array_sort byStart (map (timedItem new_Date now_opt) sched)"

text \<open>The spec's wording of the status rule, on the parsed endpoints and the clock value.\<close>

definition status_rule :: "Date \<Rightarrow> Date \<Rightarrow> Date option \<Rightarrow> ScheduleItemStatus" where
  "status_rule startD endD now_opt =
     (case now_opt of
        None \<Rightarrow> upcoming
      | Some now \<Rightarrow>
          if date_ge now endD then past
          else if date_le startD now \<and> date_lt now endD then live
          else upcoming)"

text \<open>Ascending order of the parsed starts: \<^verbatim>\<open>a.startDate <= b.startDate\<close> for every item
  \<open>a\<close> and every later item \<open>b\<close>.\<close>

definition startLe :: "TimedScheduleItem \<Rightarrow> TimedScheduleItem \<Rightarrow> bool" where
  "startLe a b = date_le (startDate a) (startDate b)"

definition sortedByStart :: "TimedScheduleItem list \<Rightarrow> bool" where
  "sortedByStart items = sorted_wrt startLe items"

definition startTimes :: "TimedScheduleItem list \<Rightarrow> number list" where
  "startTimes items = map (\<lambda>item. getTime (startDate item)) items"

text \<open>The schedule item a timed item extends.\<close>

definition scheduleItem :: "TimedScheduleItem \<Rightarrow> ScheduleItem" where
  "scheduleItem t = ScheduleItem.truncate t"

subsection \<open>getActiveScheduleIndex and the visible items\<close>

text \<open>\<^verbatim>\<open>Array.prototype.findIndex\<close>: the first index whose element satisfies the predicate,
  or \<open>-1\<close>.\<close>

fun findIndex :: "('a \<Rightarrow> bool) \<Rightarrow> 'a list \<Rightarrow> int" where
  "findIndex p [] = - 1"
| "findIndex p (x # xs) =
     (if p x then 0 else (let i = findIndex p xs in if i = - 1 then - 1 else i + 1))"

definition getActiveScheduleIndex :: "TimedScheduleItem list \<Rightarrow> Date option \<Rightarrow> int" where
  "getActiveScheduleIndex items now_opt =
     (case now_opt of
        None \<Rightarrow> - 1
      | Some now \<Rightarrow>
          if items = [] then - 1
          else
            (let liveIndex = findIndex (\<lambda>item. status item = live) items
             in if liveIndex \<noteq> - 1 then liveIndex
                else
                  (let upcomingIndex = findIndex (\<lambda>item. date_gt (startDate item) now) items
                   in if upcomingIndex \<noteq> - 1 then upcomingIndex
                      else int (length items) - 1)))"

text \<open>The first two lines of \<^verbatim>\<open>ScheduleList\<close>; \<^verbatim>\<open>items.slice(i)\<close> drops the first \<open>i\<close> items.\<close>

definition firstVisibleIndex :: "TimedScheduleItem list \<Rightarrow> int" where
  "firstVisibleIndex items = findIndex (\<lambda>item. status item \<noteq> past) items"

definition visibleItems :: "TimedScheduleItem list \<Rightarrow> TimedScheduleItem list" where
  "visibleItems items =
     (if firstVisibleIndex items = - 1 then [] else drop (nat (firstVisibleIndex items)) items)"

subsection \<open>The sponsor groups of \<^verbatim>\<open>Tv\<close>\<close>

definition mainSponsor :: "Sponsor list \<Rightarrow> Sponsor option" where
  "mainSponsor sps = find (\<lambda>s. level s = root) sps"

definition secondarySponsors :: "Sponsor list \<Rightarrow> Sponsor list" where
  "secondarySponsors sps = filter (\<lambda>s. level s = admin) sps"

definition thirdTierSponsors :: "Sponsor list \<Rightarrow> Sponsor list" where
  "thirdTierSponsors sps = filter (\<lambda>s. level s = user) sps"

definition collaboratorSponsors :: "Sponsor list \<Rightarrow> Sponsor list" where
  "collaboratorSponsors sps = filter (\<lambda>s. level s = collaborator) sps"

subsection \<open>getAssetUrl\<close>

datatype error = TypeError | RequestError string

text \<open>\<^verbatim>\<open>s.replace(/\/$/, '')\<close>: one slash at the end of the string is removed.\<close>

definition strip_trailing_slash :: "string \<Rightarrow> string" where
  "strip_trailing_slash s = (if s \<noteq> [] \<and> last s = CHR ''/'' then butlast s else s)"

text \<open>
  \<open>new_URL path base\<close> is \<^verbatim>\<open>new URL(path, base).toString()\<close>, or the \<^verbatim>\<open>TypeError\<close> the
  constructor throws. The base is the build-time constant \<^verbatim>\<open>DIRECTUS_URL\<close>, \<open>None\<close> when the
  environment variable is not set; the fallback then calls \<^verbatim>\<open>replace\<close> on \<^verbatim>\<open>undefined\<close>,
  which throws.
\<close>

definition getAssetUrl ::
    "(string \<Rightarrow> string option \<Rightarrow> error + string) \<Rightarrow> string option \<Rightarrow> string option \<Rightarrow> error + string" where
  "getAssetUrl new_URL DIRECTUS_URL id_opt =
     (case id_opt of
        None \<Rightarrow> Inr ''''
      | Some ident \<Rightarrow>
          if ident = '''' then Inr ''''
          else
            (case new_URL (''/assets/'' @ ident) DIRECTUS_URL of
               Inr href \<Rightarrow> Inr href
             | Inl _ \<Rightarrow>
                 (case DIRECTUS_URL of
                    None \<Rightarrow> Inl TypeError
                  | Some base \<Rightarrow> Inr (strip_trailing_slash base @ ''/assets/'' @ ident))))"

subsection \<open>fetchTvData and the poll\<close>

text \<open>
  What one of the five request expressions does: the call throws before there is a
  promise, or its promise is rejected, or fulfilled with a value. A value from the
  backend may be \<^verbatim>\<open>null\<close>, also where a list is expected.
\<close>

datatype 'a request = Threw error | Rejected error | Fulfilled 'a

record requests =
  sponsors_request :: "Sponsor list option request"
  schedule_request :: "ScheduleItem list option request"
  wifi_request :: "WifiInfo option request"
  hackingtime_request :: "HackingTime option request"
  announcement_request :: "AnnouncementInfo option request"

text \<open>\<^verbatim>\<open>request.catch(() => d)\<close> under \<^verbatim>\<open>await\<close>: a rejection becomes \<open>d\<close>; a throw leaves
  the function.\<close>

fun catch_default :: "'a \<Rightarrow> 'a request \<Rightarrow> error + 'a" where
  "catch_default d (Threw e) = Inl e"
| "catch_default d (Rejected e) = Inr d"
| "catch_default d (Fulfilled v) = Inr v"

fun threw :: "'a request \<Rightarrow> bool" where
  "threw (Threw e) = True"
| "threw (Rejected e) = False"
| "threw (Fulfilled v) = False"

text \<open>\<^verbatim>\<open>v ?? d\<close>.\<close>

fun nullish :: "'a option \<Rightarrow> 'a \<Rightarrow> 'a" where
  "nullish None d = d"
| "nullish (Some v) d = v"

definition fetchTvData :: "requests \<Rightarrow> error + TvData" where
  "fetchTvData rq =
     (case catch_default (Some []) (sponsors_request rq) of
        Inl e \<Rightarrow> Inl e
      | Inr sponsors_v \<Rightarrow>
     (case catch_default (Some []) (schedule_request rq) of
        Inl e \<Rightarrow> Inl e
      | Inr schedule_v \<Rightarrow>
     (case catch_default None (wifi_request rq) of
        Inl e \<Rightarrow> Inl e
      | Inr wifi_v \<Rightarrow>
     (case catch_default None (hackingtime_request rq) of
        Inl e \<Rightarrow> Inl e
      | Inr hacking_v \<Rightarrow>
     (case catch_default None (announcement_request rq) of
        Inl e \<Rightarrow> Inl e
      | Inr announcement_v \<Rightarrow>
          Inr \<lparr>sponsors = nullish sponsors_v [], schedule = nullish schedule_v [],
               wifi = wifi_v,
               hacking = hacking_v, announcement = announcement_v\<rparr>)))))"

text \<open>
  The state of \<^verbatim>\<open>Tv\<close> that a poll touches: the snapshot, the loading flag, the
  \<^verbatim>\<open>cancelled\<close> flag of the effect, and the calls of \<^verbatim>\<open>console.error\<close>.
\<close>

record view =
  data :: TvData
  isLoading :: bool
  cancelled :: bool
  console_error :: "(string \<times> error) list"

definition initial_data :: TvData where
  "initial_data = \<lparr>sponsors = [], schedule = [], wifi = None, hacking = None, announcement = None\<rparr>"

definition load :: "requests \<Rightarrow> view \<Rightarrow> view" where
  "load rq v =
     (case fetchTvData rq of
        Inr next \<Rightarrow> if \<not> cancelled v then v\<lparr>data := next, isLoading := False\<rparr> else v
      | Inl e \<Rightarrow>
          (let v' = v\<lparr>console_error := console_error v @ [(''Failed to load TV data'', e)]\<rparr>
           in if \<not> cancelled v' then v'\<lparr>isLoading := False\<rparr> else v'))"

text \<open>A poll whose five requests are all rejected.\<close>

definition all_rejected :: "error \<Rightarrow> requests" where
  "all_rejected e =
     \<lparr>sponsors_request = Rejected e, schedule_request = Rejected e, wifi_request = Rejected e,
      hackingtime_request = Rejected e, announcement_request = Rejected e\<rparr>"

subsection \<open>Sample inputs\<close>

text \<open>
  The time values of \<^verbatim>\<open>new Date(s)\<close> on the ISO strings the examples use; any other string
  stands for one that does not parse.
\<close>

definition sample_Date :: "string \<Rightarrow> Date" where
  "sample_Date s =
     (case map_of
        [(''1970-01-01T00:00:01Z'', 1000), (''1970-01-01T00:00:03Z'', 3000),
         (''1970-01-01T00:00:05Z'', 5000), (''1970-01-01T00:00:06Z'', 6000),
         (''1970-01-01T00:00:08Z'', 8000), (''1970-01-01T00:00:09Z'', 9000),
         (''1970-01-01T10:00:00Z'', 36000000), (''1970-01-02T22:00:00Z'', 165600000)] s of
        Some t \<Rightarrow> Date (Finite t)
      | None \<Rightarrow> Date NaN)"

definition talk :: "int \<Rightarrow> string \<Rightarrow> string \<Rightarrow> ScheduleItem" where
  "talk i s e = \<lparr>item_id = i, title = ''Talk'', start = s, end' = e, location = ''Aula'',
                 tags = [], description = None\<rparr>"

definition sponsor :: "int \<Rightarrow> SponsorLevel \<Rightarrow> Sponsor" where
  "sponsor i l = \<lparr>sponsor_id = i, name = ''Acme'', level = l, link = '''', logo = ''''\<rparr>"

definition hacking_window :: HackingTime where
  "hacking_window = \<lparr>hacking_id = 1, hacking_start = ''1970-01-01T10:00:00Z'',
                      hacking_end = ''1970-01-02T22:00:00Z''\<rparr>"

definition unparsed_window :: HackingTime where
  "unparsed_window = \<lparr>hacking_id = 1, hacking_start = ''soon'',
                       hacking_end = ''1970-01-02T22:00:00Z''\<rparr>"

definition two_talks :: "ScheduleItem list" where
  "two_talks = [talk 1 ''1970-01-01T00:00:03Z'' ''1970-01-01T00:00:05Z'',
                talk 2 ''1970-01-01T00:00:05Z'' ''1970-01-01T00:00:06Z'']"

definition unsorted_talks :: "ScheduleItem list" where
  "unsorted_talks = [talk 1 ''1970-01-01T00:00:05Z'' ''1970-01-01T00:00:06Z'',
                     talk 2 ''1970-01-01T00:00:03Z'' ''1970-01-01T00:00:05Z'',
                     talk 3 ''1970-01-01T00:00:01Z'' ''1970-01-01T00:00:03Z'']"

text \<open>The start of the second talk does not parse.\<close>

definition three_talks :: "ScheduleItem list" where
  "three_talks = [talk 1 ''1970-01-01T00:00:03Z'' ''1970-01-01T00:00:05Z'',
                  talk 2 ''soon'' ''1970-01-01T00:00:06Z'',
                  talk 3 ''1970-01-01T00:00:01Z'' ''1970-01-01T00:00:03Z'']"

text \<open>The start of the second of two talks does not parse.\<close>

definition one_unparsed :: "ScheduleItem list" where
  "one_unparsed = [talk 1 ''1970-01-01T00:00:01Z'' ''1970-01-01T00:00:03Z'',
                   talk 2 ''soon'' ''1970-01-01T00:00:05Z'']"

text \<open>Two talks that end before they start.\<close>

definition reversed_talks :: "ScheduleItem list" where
  "reversed_talks = [talk 1 ''1970-01-01T00:00:08Z'' ''1970-01-01T00:00:05Z'',
                     talk 2 ''1970-01-01T00:00:09Z'' ''1970-01-01T00:00:06Z'']"

text \<open>Timed items with a given status, and a view that shows the Wi-Fi of an earlier poll.\<close>

definition timed :: "int \<Rightarrow> ScheduleItemStatus \<Rightarrow> TimedScheduleItem" where
  "timed i st = \<lparr>item_id = i, title = ''Talk'', start = ''1970-01-01T00:00:01Z'',
                 end' = ''1970-01-01T00:00:03Z'', location = ''Aula'', tags = [],
                 description = None, startDate = Date (Finite 1000),
                 endDate = Date (Finite 3000), status = st\<rparr>"

definition showing_wifi :: view where
  "showing_wifi =
     \<lparr>data = \<lparr>sponsors = [], schedule = [],
               wifi = Some \<lparr>wifi_id = 1, ssid = ''HackUDC'', password = ''hunter2''\<rparr>,
               hacking = None, announcement = None\<rparr>,
      isLoading = True, cancelled = False, console_error = []\<rparr>"

text \<open>A poll whose first request throws.\<close>

definition first_throws :: "error \<Rightarrow> requests" where
  "first_throws e =
     \<lparr>sponsors_request = Threw e, schedule_request = Rejected e, wifi_request = Rejected e,
      hackingtime_request = Rejected e, announcement_request = Rejected e\<rparr>"

text \<open>
  The URL constructor on the base of the example, where an absolute path replaces the
  path of the base; any other base stands for one that is not a URL.
\<close>

definition sample_URL :: "string \<Rightarrow> string option \<Rightarrow> error + string" where
  "sample_URL path base_opt =
     (if base_opt = Some ''https://cms.example/'' then Inr (''https://cms.example'' @ path)
      else Inl TypeError)"

section \<open>Properties\<close>

subsection \<open>Dates and differences\<close>

lemma TimeClip_simps [simp]:
  "TimeClip NaN = NaN"
  "TimeClip (Finite t) = (if \<bar>t\<bar> \<le> 8640000000000000 then Finite t else NaN)"
  by (simp_all add: TimeClip_def)

lemma getTime_Date [simp]: "getTime (Date v) = TimeClip v"
  by (simp add: Date_def TimeClip_def Abs_Date_inverse)

lemma getTime_range: "getTime d = Finite t \<Longrightarrow> \<bar>t\<bar> \<le> 8640000000000000"
  using getTime [of d] by simp

lemma round_double_exact: "\<bar>x\<bar> \<le> 9007199254740992 \<Longrightarrow> round_double x = x"
  by (simp add: round_double_def)

lemma round_double_pos: "0 < round_double x \<longleftrightarrow> 0 < x"
  by (auto simp: round_double_def)

lemma time_diff_Finite:
  "getTime a = Finite x \<Longrightarrow> getTime b = Finite y \<Longrightarrow>
   time_diff a b = Finite (round_double (x - y))"
  by (simp add: time_diff_def)

lemma time_diff_NaN: "isNaN (getTime a) \<or> isNaN (getTime b) \<Longrightarrow> time_diff a b = NaN"
  by (cases "getTime a"; cases "getTime b") (simp_all add: time_diff_def)

text \<open>The difference of two time values stays below \<open>2 ^ 54\<close>, where \<open>round_double\<close> is the
  rounding of doubles.\<close>

lemma time_diff_in_range:
  "getTime a = Finite x \<Longrightarrow> getTime b = Finite y \<Longrightarrow> \<bar>x - y\<bar> < 18014398509481984"
  using getTime_range [of a x] getTime_range [of b y] by linarith

subsection \<open>The countdown\<close>

lemma dec_length_small: "n < 10 \<Longrightarrow> length (dec n) = 1"
  by (subst dec.simps) simp

lemma dec_length_pos: "0 < length (dec n)"
  by (subst dec.simps) simp

lemma dec_length_large: "10 \<le> n \<Longrightarrow> 2 \<le> length (dec n)"
proof -
  assume "10 \<le> n"
  then have "dec n = dec (n div 10) @ [digit_char (n mod 10)]"
    by (subst dec.simps) simp
  then have "length (dec n) = length (dec (n div 10)) + 1" by simp
  with dec_length_pos [of "n div 10"] show ?thesis by linarith
qed

lemma padStart_dec: "padStart 2 (CHR ''0'') (dec n) = two_digits n"
proof (cases "n < 10")
  case True
  then show ?thesis by (simp add: padStart_def two_digits_def dec_length_small)
next
  case False
  then have "2 \<le> length (dec n)" by (simp add: dec_length_large)
  with False show ?thesis by (simp add: padStart_def two_digits_def)
qed

lemma field_of_nat: "padStart 2 (CHR ''0'') (String_of (Finite (int j))) = two_digits j"
  by (simp add: padStart_dec)

lemma floor_div_of_nat: "floor_div (Finite (int k)) (int d) = Finite (int (k div d))"
  by (simp add: zdiv_int)

lemma num_rem_of_nat: "num_rem (Finite (int k)) (int d) = Finite (int (k mod d))"
  by (cases "k = 0") (simp_all add: zmod_int)

lemma Math_max0_of_nat: "Math_max0 (Finite (int k)) = Finite (int k)"
  by simp

text \<open>The last branch of \<^verbatim>\<open>formatCountdown\<close>, from \<^verbatim>\<open>totalSeconds\<close> on, for a number of
  seconds that is not negative.\<close>

lemma countdown_fields:
  "(let totalSeconds = Math_max0 (Finite (int k));
        hours = floor_div totalSeconds 3600;
        minutes = floor_div (num_rem totalSeconds 3600) 60;
        seconds = num_rem totalSeconds 60;
        hh = padStart 2 (CHR ''0'') (String_of hours);
        mm = padStart 2 (CHR ''0'') (String_of minutes);
        ss = padStart 2 (CHR ''0'') (String_of seconds)
    in hh @ '':'' @ mm @ '':'' @ ss) = hms k"
proof -
  have h: "floor_div (Finite (int k)) 3600 = Finite (int (k div 3600))"
    using floor_div_of_nat [of k 3600] by simp
  have r: "num_rem (Finite (int k)) 3600 = Finite (int (k mod 3600))"
    using num_rem_of_nat [of k 3600] by simp
  have m: "floor_div (Finite (int (k mod 3600))) 60 = Finite (int (k mod 3600 div 60))"
    using floor_div_of_nat [of "k mod 3600" 60] by simp
  have s: "num_rem (Finite (int k)) 60 = Finite (int (k mod 60))"
    using num_rem_of_nat [of k 60] by simp
  show ?thesis
    unfolding Let_def Math_max0_of_nat h r m s field_of_nat hms_def ..
qed

lemma countdown_missing:
  "hacking_opt = None \<or> now_opt = None \<Longrightarrow>
   formatCountdown new_Date hacking_opt now_opt = ''--:--:--''"
  by (auto simp: formatCountdown_def split: option.splits)

lemma countdown_unparsed:
  "isNaN (getTime (new_Date (hacking_start h))) \<or> isNaN (getTime (new_Date (hacking_end h))) \<Longrightarrow>
   formatCountdown new_Date (Some h) now_opt = ''--:--:--''"
  by (auto simp: formatCountdown_def Let_def split: option.splits)

lemma countdown_before:
  "getTime (new_Date (hacking_start h)) = Finite s \<Longrightarrow>
   getTime (new_Date (hacking_end h)) = Finite e \<Longrightarrow> getTime now = Finite n \<Longrightarrow> n < s \<Longrightarrow>
   formatCountdown new_Date (Some h) (Some now) = ''36:00:00''"
  by (simp add: formatCountdown_def Let_def date_lt_def)

lemma countdown_after:
  "getTime (new_Date (hacking_start h)) = Finite s \<Longrightarrow>
   getTime (new_Date (hacking_end h)) = Finite e \<Longrightarrow> getTime now = Finite n \<Longrightarrow>
   \<not> n < s \<Longrightarrow> e \<le> n \<Longrightarrow>
   formatCountdown new_Date (Some h) (Some now) = ''00:00:00''"
  by (simp add: formatCountdown_def Let_def date_lt_def date_ge_def)

text \<open>The fourth rule, with the difference as the code computes it.\<close>

lemma countdown_running:
  assumes "getTime (new_Date (hacking_start h)) = Finite s"
    and "getTime (new_Date (hacking_end h)) = Finite e"
    and "getTime now = Finite n"
    and "\<not> n < s" and "\<not> e \<le> n"
  shows "formatCountdown new_Date (Some h) (Some now)
           = hms (nat (round_double (e - n) div 1000))"
proof -
  from assms(5) have "0 < round_double (e - n)"
    by (simp add: round_double_pos)
  then have "0 \<le> round_double (e - n) div 1000"
    by (simp add: pos_imp_zdiv_nonneg_iff)
  then obtain k where k: "round_double (e - n) div 1000 = int k"
    using nonneg_int_cases by blast
  have fd: "floor_div (time_diff (new_Date (hacking_end h)) now) 1000 = Finite (int k)"
    using k assms(2,3) by (simp add: time_diff_Finite)
  have "formatCountdown new_Date (Some h) (Some now) =
     (let totalSeconds = Math_max0 (Finite (int k));
          hours = floor_div totalSeconds 3600;
          minutes = floor_div (num_rem totalSeconds 3600) 60;
          seconds = num_rem totalSeconds 60;
          hh = padStart 2 (CHR ''0'') (String_of hours);
          mm = padStart 2 (CHR ''0'') (String_of minutes);
          ss = padStart 2 (CHR ''0'') (String_of seconds)
      in hh @ '':'' @ mm @ '':'' @ ss)"
    using assms
    by (simp add: formatCountdown_def Let_def date_lt_def date_ge_def fd
          del: Math_max0.simps floor_div.simps num_rem.simps String_of.simps)
  also have "\<dots> = hms k"
    by (rule countdown_fields)
  finally show ?thesis
    using k by simp
qed

text \<open>A clock value that is an invalid date passes the three tests and reaches the fields.\<close>

lemma countdown_invalid_now:
  "getTime (new_Date (hacking_start h)) = Finite s \<Longrightarrow>
   getTime (new_Date (hacking_end h)) = Finite e \<Longrightarrow>
   formatCountdown new_Date (Some h) (Some (Date NaN)) = ''NaN:NaN:NaN''"
  by (simp add: formatCountdown_def Let_def date_lt_def date_ge_def padStart_def time_diff_def)

text \<open>Beyond \<open>2 ^ 53\<close> milliseconds the difference is rounded: from the first to the last
  millisecond a date can hold, less one, the code counts 4800000000 hours.\<close>

lemma round_double_example: "round_double 17279999999999999 = 17280000000000000"
  by (simp add: round_double_def)

lemma countdown_rounded_example:
  assumes "getTime (new_Date (hacking_start h)) = Finite (- 8640000000000000)"
    and "getTime (new_Date (hacking_end h)) = Finite 8640000000000000"
    and "getTime now = Finite (- 8639999999999999)"
  shows "formatCountdown new_Date (Some h) (Some now) = ''4800000000:00:00''"
proof -
  have "formatCountdown new_Date (Some h) (Some now)
          = hms (nat (round_double (8640000000000000 - (- 8639999999999999)) div 1000))"
    by (rule countdown_running [OF assms]) simp_all
  also have "\<dots> = hms 17280000000000"
    by (simp add: round_double_def)
  also have "\<dots> = ''4800000000:00:00''"
    by (simp add: hms_def two_digits_def dec.simps digit_char_def)
  finally show ?thesis .
qed

lemma hms_example: "hms 125877 = ''34:57:57''"
  by (simp add: hms_def two_digits_def dec.simps digit_char_def)

lemma sample_Date_values:
  "sample_Date ''1970-01-01T00:00:01Z'' = Date (Finite 1000)"
  "sample_Date ''1970-01-01T00:00:03Z'' = Date (Finite 3000)"
  "sample_Date ''1970-01-01T00:00:05Z'' = Date (Finite 5000)"
  "sample_Date ''1970-01-01T00:00:06Z'' = Date (Finite 6000)"
  "sample_Date ''1970-01-01T00:00:08Z'' = Date (Finite 8000)"
  "sample_Date ''1970-01-01T00:00:09Z'' = Date (Finite 9000)"
  "sample_Date ''1970-01-01T10:00:00Z'' = Date (Finite 36000000)"
  "sample_Date ''1970-01-02T22:00:00Z'' = Date (Finite 165600000)"
  "sample_Date ''soon'' = Date NaN"
  by (simp_all add: sample_Date_def)

text \<open>
  C1. The countdown formatter returns \<^verbatim>\<open>--:--:--\<close> when the window or the clock value is
  missing, and when the start or the end of the window does not parse. For a window that
  parses and a clock value \<open>n\<close> it returns \<^verbatim>\<open>36:00:00\<close> before the start, else
  \<^verbatim>\<open>00:00:00\<close> from the end on, else the whole seconds left until the end, written as
  hours, minutes and seconds of two digits at least, the hours not wrapped at 24; the
  seconds left are those of the exact difference where the end is at most \<open>2 ^ 53\<close>
  milliseconds after the clock value, the range on which the subtraction of the code is
  exact. With the end 36 hours after the start and the clock 1 h 2 min 3 s after the
  start it returns \<^verbatim>\<open>34:57:57\<close>.
\<close>

theorem formatCountdown_rules:
  "(hacking_opt = None \<or> now_opt = None \<longrightarrow>
      formatCountdown new_Date hacking_opt now_opt = ''--:--:--'')
   \<and> (isNaN (getTime (new_Date (hacking_start hb))) \<or> isNaN (getTime (new_Date (hacking_end hb))) \<longrightarrow>
      formatCountdown new_Date (Some hb) now_opt = ''--:--:--'')
   \<and> (getTime (new_Date (hacking_start h)) = Finite s
        \<and> getTime (new_Date (hacking_end h)) = Finite e \<and> getTime now = Finite n
        \<and> (n < s \<or> e \<le> n \<or> e - n \<le> 9007199254740992) \<longrightarrow>
      formatCountdown new_Date (Some h) (Some now) =
        (if n < s then ''36:00:00''
         else if n \<ge> e then ''00:00:00''
         else hms (nat ((e - n) div 1000))))
   \<and> (getTime (new_Date (hacking_start h)) = Finite s
        \<and> getTime (new_Date (hacking_end h)) = Finite (s + 36 * 3600 * 1000)
        \<and> getTime now = Finite (s + (1 * 3600 + 2 * 60 + 3) * 1000) \<longrightarrow>
      formatCountdown new_Date (Some h) (Some now) = ''34:57:57'')"
proof (intro conjI impI)
  assume "hacking_opt = None \<or> now_opt = None"
  then show "formatCountdown new_Date hacking_opt now_opt = ''--:--:--''"
    by (rule countdown_missing)
next
  assume "isNaN (getTime (new_Date (hacking_start hb))) \<or> isNaN (getTime (new_Date (hacking_end hb)))"
  then show "formatCountdown new_Date (Some hb) now_opt = ''--:--:--''"
    by (rule countdown_unparsed)
next
  assume p: "getTime (new_Date (hacking_start h)) = Finite s
        \<and> getTime (new_Date (hacking_end h)) = Finite e \<and> getTime now = Finite n
        \<and> (n < s \<or> e \<le> n \<or> e - n \<le> 9007199254740992)"
  consider "n < s" | "\<not> n < s" "e \<le> n" | "\<not> n < s" "\<not> e \<le> n"
    by blast
  then show "formatCountdown new_Date (Some h) (Some now) =
        (if n < s then ''36:00:00'' else if n \<ge> e then ''00:00:00''
         else hms (nat ((e - n) div 1000)))"
  proof cases
    case 1
    with p show ?thesis by (simp add: countdown_before)
  next
    case 2
    with p show ?thesis by (simp add: countdown_after)
  next
    case 3
    with p have "\<bar>e - n\<bar> \<le> 9007199254740992" by linarith
    then have "round_double (e - n) = e - n" by (rule round_double_exact)
    with p 3 show ?thesis by (simp add: countdown_running)
  qed
next
  assume p: "getTime (new_Date (hacking_start h)) = Finite s
        \<and> getTime (new_Date (hacking_end h)) = Finite (s + 36 * 3600 * 1000)
        \<and> getTime now = Finite (s + (1 * 3600 + 2 * 60 + 3) * 1000)"
  then have q: "getTime (new_Date (hacking_start h)) = Finite s"
    "getTime (new_Date (hacking_end h)) = Finite (s + 129600000)"
    "getTime now = Finite (s + 3723000)"
    by simp_all
  have a: "\<not> s + 3723000 < s" and b: "\<not> s + 129600000 \<le> s + 3723000"
    by linarith+
  have "formatCountdown new_Date (Some h) (Some now)
          = hms (nat (round_double (s + 129600000 - (s + 3723000)) div 1000))"
    by (rule countdown_running [OF q a b])
  also have "\<dots> = hms 125877"
    by (simp add: round_double_def)
  finally show "formatCountdown new_Date (Some h) (Some now) = ''34:57:57''"
    by (simp add: hms_example)
qed

theorem formatCountdown_rules_witness:
  "((None :: HackingTime option) = None \<or> Some (Date (Finite 0)) = None)
   \<and> formatCountdown sample_Date None (Some (Date (Finite 0))) = ''--:--:--''
   \<and> isNaN (getTime (sample_Date (hacking_start unparsed_window)))
   \<and> formatCountdown sample_Date (Some unparsed_window) (Some (Date (Finite 0))) = ''--:--:--''
   \<and> getTime (sample_Date (hacking_start hacking_window)) = Finite 36000000
   \<and> getTime (sample_Date (hacking_end hacking_window)) = Finite (36000000 + 36 * 3600 * 1000)
   \<and> getTime (Date (Finite 39723000)) = Finite 39723000
   \<and> 165600000 - 39723000 \<le> (9007199254740992 :: int)
   \<and> formatCountdown sample_Date (Some hacking_window) (Some (Date (Finite 39723000))) = ''34:57:57''"
  using formatCountdown_rules [where new_Date = sample_Date and hacking_opt = None
      and now_opt = "Some (Date (Finite 0))" and hb = unparsed_window and h = hacking_window
      and s = 36000000 and e = 165600000 and n = 39723000 and now = "Date (Finite 39723000)"]
  by (simp add: sample_Date_values hacking_window_def unparsed_window_def hms_example)

subsection \<open>The schedule classifier\<close>

lemma date_le_ge: "date_le a b = date_ge b a"
  by (cases "getTime a"; cases "getTime b") (simp_all add: date_le_def date_ge_def)

lemma timedItem_fields:
  "startDate (timedItem new_Date now_opt item) = new_Date (start item)"
  "endDate (timedItem new_Date now_opt item) = new_Date (end' item)"
  "status (timedItem new_Date now_opt item) =
     status_rule (new_Date (start item)) (new_Date (end' item)) now_opt"
  "scheduleItem (timedItem new_Date now_opt item) = item"
  by (simp_all add: timedItem_def status_rule_def Let_def date_le_ge scheduleItem_def
        ScheduleItem.truncate_def split: option.splits)

lemma timedItem_start_end:
  "start (timedItem new_Date now_opt item) = start item"
  "end' (timedItem new_Date now_opt item) = end' item"
  by (simp_all add: timedItem_def Let_def)

lemma mset_sort_insert: "mset (sort_insert c x xs) = add_mset x (mset xs)"
  by (induction xs) simp_all

lemma mset_Array_sort: "mset (Array_sort c xs) = mset xs"
  by (induction xs) (simp_all add: mset_sort_insert)

lemma set_Array_sort: "set (Array_sort c xs) = set xs"
  using mset_Array_sort [of c xs] by (metis set_mset_mset)

lemma length_Array_sort: "length (Array_sort c xs) = length xs"
  using mset_Array_sort [of c xs] by (metis size_mset)

lemma set_buildTimedSchedule:
  "set (buildTimedSchedule new_Date sched now_opt) = timedItem new_Date now_opt ` set sched"
  by (simp add: buildTimedSchedule_def set_Array_sort)

text \<open>
  C2. Every item of the classifier's output carries the parsed start and end of its own
  strings, and its status is a function of these two dates and the clock value: with no
  clock value it is upcoming; with a clock value it is past when the clock has reached
  the end, else live when the start is not after the clock and the clock is before the
  end, else upcoming.
\<close>

theorem status_is_status_rule:
  "\<forall>t \<in> set (buildTimedSchedule new_Date sched now_opt).
     startDate t = new_Date (start t) \<and> endDate t = new_Date (end' t)
     \<and> status t = status_rule (startDate t) (endDate t) now_opt
     \<and> (now_opt = None \<longrightarrow> status t = upcoming)
     \<and> (\<forall>now. now_opt = Some now \<longrightarrow>
           status t = (if date_ge now (endDate t) then past
                       else if date_le (startDate t) now \<and> date_lt now (endDate t) then live
                       else upcoming))"
proof
  fix t
  assume "t \<in> set (buildTimedSchedule new_Date sched now_opt)"
  then obtain item where t: "t = timedItem new_Date now_opt item"
    by (auto simp: set_buildTimedSchedule)
  show "startDate t = new_Date (start t) \<and> endDate t = new_Date (end' t)
     \<and> status t = status_rule (startDate t) (endDate t) now_opt
     \<and> (now_opt = None \<longrightarrow> status t = upcoming)
     \<and> (\<forall>now. now_opt = Some now \<longrightarrow>
           status t = (if date_ge now (endDate t) then past
                       else if date_le (startDate t) now \<and> date_lt now (endDate t) then live
                       else upcoming))"
    unfolding t
    by (cases now_opt) (simp_all add: timedItem_fields timedItem_start_end status_rule_def)
qed

theorem status_is_status_rule_witness:
  "talk 1 ''1970-01-01T00:00:03Z'' ''1970-01-01T00:00:05Z'' \<in> set two_talks
   \<and> set (buildTimedSchedule sample_Date two_talks (Some (Date (Finite 4000)))) \<noteq> {}
   \<and> map status (buildTimedSchedule sample_Date two_talks (Some (Date (Finite 4000)))) = [live, upcoming]
   \<and> map status (buildTimedSchedule sample_Date two_talks (Some (Date (Finite 5000)))) = [past, live]
   \<and> map status (buildTimedSchedule sample_Date two_talks None) = [upcoming, upcoming]"
  using status_is_status_rule [of sample_Date two_talks "Some (Date (Finite 4000))"]
  by (simp add: two_talks_def buildTimedSchedule_def timedItem_def talk_def sample_Date_values
       Let_def date_ge_def date_lt_def byStart_def SortCompare_def time_diff_def
       round_double_def)

lemma SortCompare_byStart:
  "getTime (startDate a) = Finite x \<Longrightarrow> getTime (startDate b) = Finite y \<Longrightarrow>
   SortCompare byStart a b = round_double (x - y)"
  by (simp add: SortCompare_def byStart_def time_diff_def)

lemma startLe_trans: "startLe a b \<Longrightarrow> startLe b c \<Longrightarrow> startLe a c"
  by (cases "getTime (startDate a)"; cases "getTime (startDate b)"; cases "getTime (startDate c)")
     (simp_all add: startLe_def date_le_def)

lemma startLe_cases:
  assumes "\<not> isNaN (getTime (startDate a))" and "\<not> isNaN (getTime (startDate b))"
  shows "if SortCompare byStart a b > 0 then startLe b a else startLe a b"
  using assms
  by (cases "getTime (startDate a)"; cases "getTime (startDate b)")
     (auto simp: startLe_def date_le_def SortCompare_byStart round_double_pos)

lemma set_sort_insert: "set (sort_insert c x xs) = insert x (set xs)"
  using mset_sort_insert [of c x xs] by (metis set_mset_mset set_mset_add_mset_insert)

lemma sorted_sort_insert:
  assumes "\<not> isNaN (getTime (startDate x))"
    and "\<forall>y \<in> set xs. \<not> isNaN (getTime (startDate y))"
    and "sorted_wrt startLe xs"
  shows "sorted_wrt startLe (sort_insert byStart x xs)"
  using assms
proof (induction xs)
  case Nil
  then show ?case by simp
next
  case (Cons y ys)
  from Cons.prems have vy: "\<not> isNaN (getTime (startDate y))" by simp
  show ?case
  proof (cases "SortCompare byStart x y > 0")
    case True
    then have "startLe y x"
      using startLe_cases [OF Cons.prems(1) vy] by simp
    moreover have "sorted_wrt startLe (sort_insert byStart x ys)"
      using Cons by simp
    ultimately show ?thesis
      using True Cons.prems(3) by (simp add: set_sort_insert)
  next
    case False
    then have xy: "startLe x y"
      using startLe_cases [OF Cons.prems(1) vy] by simp
    have "\<forall>z \<in> set ys. startLe x z"
      using xy Cons.prems(3) startLe_trans by auto
    with False xy Cons.prems(3) show ?thesis by simp
  qed
qed

lemma sorted_Array_sort:
  "\<forall>y \<in> set xs. \<not> isNaN (getTime (startDate y)) \<Longrightarrow>
   sorted_wrt startLe (Array_sort byStart xs)"
  by (induction xs) (simp_all add: sorted_sort_insert set_Array_sort)

lemma SortCompare_pos_differ:
  "SortCompare byStart a b > 0 \<Longrightarrow> getTime (startDate a) \<noteq> getTime (startDate b)"
  by (cases "getTime (startDate a)"; cases "getTime (startDate b)")
     (auto simp: SortCompare_def byStart_def time_diff_def round_double_pos)

lemma filter_sort_insert:
  "filter (\<lambda>t. getTime (startDate t) = k) (sort_insert byStart x xs)
     = filter (\<lambda>t. getTime (startDate t) = k) (x # xs)"
proof (induction xs)
  case Nil
  then show ?case by simp
next
  case (Cons y ys)
  show ?case
  proof (cases "SortCompare byStart x y > 0")
    case True
    from SortCompare_pos_differ [OF True] Cons.IH True show ?thesis
      by auto
  next
    case False
    then show ?thesis by simp
  qed
qed

lemma filter_Array_sort:
  "filter (\<lambda>t. getTime (startDate t) = k) (Array_sort byStart xs)
     = filter (\<lambda>t. getTime (startDate t) = k) xs"
  by (induction xs) (simp_all add: filter_sort_insert)

text \<open>
  C3 (amended). For every input list whose start strings all parse, in any input order,
  and every clock value, the classifier's output is in ascending order of the parsed
  starts, and the items of one and the same start time value keep the order they have
  in the input.
\<close>

theorem output_sorted_when_starts_parse:
  "(\<forall>item \<in> set sched. \<not> isNaN (getTime (new_Date (start item)))) \<longrightarrow>
     sortedByStart (buildTimedSchedule new_Date sched now_opt)
     \<and> filter (\<lambda>t. getTime (startDate t) = k) (buildTimedSchedule new_Date sched now_opt)
         = filter (\<lambda>t. getTime (startDate t) = k) (map (timedItem new_Date now_opt) sched)"
proof (intro conjI impI)
  assume "\<forall>item \<in> set sched. \<not> isNaN (getTime (new_Date (start item)))"
  then show "sortedByStart (buildTimedSchedule new_Date sched now_opt)"
    unfolding sortedByStart_def buildTimedSchedule_def
    by (intro sorted_Array_sort) (simp add: timedItem_fields)
next
  show "filter (\<lambda>t. getTime (startDate t) = k) (buildTimedSchedule new_Date sched now_opt)
       = filter (\<lambda>t. getTime (startDate t) = k) (map (timedItem new_Date now_opt) sched)"
    by (simp only: buildTimedSchedule_def filter_Array_sort)
qed

theorem output_sorted_when_starts_parse_witness:
  "map start unsorted_talks
     = [''1970-01-01T00:00:05Z'', ''1970-01-01T00:00:03Z'', ''1970-01-01T00:00:01Z'']
   \<and> sortedByStart (buildTimedSchedule sample_Date unsorted_talks None)
   \<and> startTimes (buildTimedSchedule sample_Date unsorted_talks None)
        = [Finite 1000, Finite 3000, Finite 5000]"
proof -
  have v: "\<forall>item \<in> set unsorted_talks. \<not> isNaN (getTime (sample_Date (start item)))"
    by (simp add: unsorted_talks_def talk_def sample_Date_values)
  have "startTimes (buildTimedSchedule sample_Date unsorted_talks None)
        = [Finite 1000, Finite 3000, Finite 5000]"
    by (simp add: unsorted_talks_def buildTimedSchedule_def timedItem_def talk_def
          sample_Date_values Let_def byStart_def SortCompare_def startTimes_def
          time_diff_def round_double_def)
  with v output_sorted_when_starts_parse [of unsorted_talks sample_Date None] show ?thesis
    by (simp add: unsorted_talks_def talk_def)
qed

text \<open>
  C3 as stated fails where a start string does not parse: the comparator answers
  \<^verbatim>\<open>NaN\<close>, read as "equal", for every pair with that item. Of three talks starting at
  3 s, at an unparsed time and at 1 s, each neighbour pair compares as equal: V8, which
  first looks for an ascending run, takes the whole list for one and leaves it as it
  came, as the model does, the talk starting at 3 s before the one starting at 1 s.
\<close>

theorem unparsed_start_breaks_order:
  "startTimes (buildTimedSchedule sample_Date three_talks None) = [Finite 3000, NaN, Finite 1000]
   \<and> \<not> sortedByStart (buildTimedSchedule sample_Date three_talks None)"
  by (simp add: three_talks_def buildTimedSchedule_def timedItem_def talk_def
        sample_Date_values Let_def byStart_def SortCompare_def startTimes_def
          time_diff_def round_double_def sortedByStart_def
        startLe_def date_le_def)

text \<open>
  C10. For every input list and every clock value, the schedule items that the output
  records extend are, as a multiset, the input items: the output has the length of the
  input and is a permutation of the input items, each extended by its parsed dates and
  its status; no item is dropped, duplicated or changed.
\<close>

theorem classification_keeps_items:
  "mset (map scheduleItem (buildTimedSchedule new_Date sched now_opt)) = mset sched
   \<and> length (buildTimedSchedule new_Date sched now_opt) = length sched
   \<and> mset (buildTimedSchedule new_Date sched now_opt) = mset (map (timedItem new_Date now_opt) sched)"
proof -
  have p: "mset (buildTimedSchedule new_Date sched now_opt)
             = mset (map (timedItem new_Date now_opt) sched)"
    by (simp add: buildTimedSchedule_def mset_Array_sort)
  have "mset (map scheduleItem (buildTimedSchedule new_Date sched now_opt))
          = image_mset scheduleItem (mset (map (timedItem new_Date now_opt) sched))"
    using p by (metis mset_map)
  also have "\<dots> = mset sched"
    by (simp add: image_mset.compositionality comp_def timedItem_fields)
  finally show ?thesis
    using p by (simp add: buildTimedSchedule_def length_Array_sort)
qed

subsection \<open>The active item\<close>

lemma findIndex_ge: "- 1 \<le> findIndex p xs"
  by (induction xs) (simp_all add: Let_def)

lemma findIndex_none: "findIndex p xs = - 1 \<longleftrightarrow> (\<forall>x \<in> set xs. \<not> p x)"
proof (induction xs)
  case Nil
  then show ?case by simp
next
  case (Cons x xs)
  have "- 1 \<le> findIndex p xs" by (rule findIndex_ge)
  with Cons show ?case by (auto simp: Let_def)
qed

lemma findIndex_takeWhile:
  "\<exists>x \<in> set xs. p x \<Longrightarrow> findIndex p xs = int (length (takeWhile (\<lambda>x. \<not> p x) xs))"
proof (induction xs)
  case Nil
  then show ?case by simp
next
  case (Cons x xs)
  show ?case
  proof (cases "p x")
    case True
    then show ?thesis by simp
  next
    case False
    with Cons.prems have ex: "\<exists>x \<in> set xs. p x" by simp
    then have "findIndex p xs \<noteq> - 1" by (simp add: findIndex_none)
    with False Cons.IH [OF ex] show ?thesis by (simp add: Let_def)
  qed
qed

lemma findIndex_first:
  "\<exists>x \<in> set xs. p x \<Longrightarrow>
   \<exists>k < length xs. findIndex p xs = int k \<and> p (xs ! k) \<and> (\<forall>j < k. \<not> p (xs ! j))"
proof (induction xs)
  case Nil
  then show ?case by simp
next
  case (Cons x xs)
  show ?case
  proof (cases "p x")
    case True
    then show ?thesis by simp
  next
    case False
    with Cons.prems have ex: "\<exists>x \<in> set xs. p x" by simp
    from Cons.IH [OF ex] obtain k where k: "k < length xs" "findIndex p xs = int k"
      "p (xs ! k)" "\<forall>j < k. \<not> p (xs ! j)" by blast
    have "\<forall>j < Suc k. \<not> p ((x # xs) ! j)"
      using False k(4) by (simp add: nth_Cons split: nat.split)
    moreover have "findIndex p (x # xs) = int (Suc k)"
      using False k(2) by (simp add: Let_def)
    ultimately show ?thesis
      using k(1,3) by (intro exI [of _ "Suc k"]) simp
  qed
qed

lemma active_none:
  "getActiveScheduleIndex items now_opt = - 1 \<longleftrightarrow> items = [] \<or> now_opt = None"
proof (cases now_opt)
  case None
  then show ?thesis by (simp add: getActiveScheduleIndex_def)
next
  case (Some now)
  show ?thesis
  proof (cases "items = []")
    case True
    with Some show ?thesis by (simp add: getActiveScheduleIndex_def)
  next
    case False
    then have "int (length items) - 1 \<noteq> - 1" by simp
    with Some False show ?thesis
      by (simp add: getActiveScheduleIndex_def Let_def)
  qed
qed

lemma active_live:
  assumes "\<exists>t \<in> set items. status t = live"
  shows "getActiveScheduleIndex items (Some now) = findIndex (\<lambda>item. status item = live) items"
proof -
  from assms have "items \<noteq> []" by auto
  moreover from assms have "findIndex (\<lambda>item. status item = live) items \<noteq> - 1"
    by (simp add: findIndex_none)
  ultimately show ?thesis
    by (simp add: getActiveScheduleIndex_def Let_def)
qed

lemma active_upcoming:
  assumes "\<forall>t \<in> set items. status t \<noteq> live"
    and "\<exists>t \<in> set items. date_gt (startDate t) now"
  shows "getActiveScheduleIndex items (Some now)
           = findIndex (\<lambda>item. date_gt (startDate item) now) items"
proof -
  from assms(2) have "items \<noteq> []" by auto
  moreover from assms(1) have "findIndex (\<lambda>item. status item = live) items = - 1"
    by (simp add: findIndex_none)
  moreover from assms(2) have "findIndex (\<lambda>item. date_gt (startDate item) now) items \<noteq> - 1"
    by (simp add: findIndex_none)
  ultimately show ?thesis
    by (simp add: getActiveScheduleIndex_def Let_def)
qed

lemma active_last:
  assumes "items \<noteq> []"
    and "\<forall>t \<in> set items. status t \<noteq> live \<and> \<not> date_gt (startDate t) now"
  shows "getActiveScheduleIndex items (Some now) = int (length items) - 1"
proof -
  from assms(2) have "findIndex (\<lambda>item. status item = live) items = - 1"
    by (simp add: findIndex_none)
  moreover from assms(2) have "findIndex (\<lambda>item. date_gt (startDate item) now) items = - 1"
    by (simp add: findIndex_none)
  ultimately show ?thesis
    using assms(1) by (simp add: getActiveScheduleIndex_def Let_def)
qed

lemma past_not_after:
  assumes "date_ge now e" and "\<not> date_lt e s"
  shows "\<not> date_gt s now"
  using assms
  by (cases "getTime now"; cases "getTime e"; cases "getTime s")
     (simp_all add: date_ge_def date_lt_def date_gt_def)

lemma past_has_ended:
  assumes "t \<in> set (buildTimedSchedule new_Date sched (Some now))" and "status t = past"
  shows "date_ge now (endDate t)"
proof -
  from assms(1) obtain item where t: "t = timedItem new_Date (Some now) item"
    by (auto simp: set_buildTimedSchedule)
  from assms(2) show ?thesis
    unfolding t by (simp add: timedItem_fields status_rule_def split: if_splits)
qed

text \<open>
  C4 (amended). The active index is \<open>-1\<close> exactly when the list is empty or there is no
  clock value. Otherwise it is the index of the first live item if there is one; else the
  index of the first item whose parsed start is after the clock if there is one; else the
  index of the last item. In particular it is the index of the last item for a non-empty
  output of the classifier in which every item is past and no item ends before it
  starts (an item whose start or end does not parse does not end before it starts).
\<close>

theorem active_index_selection:
  "(getActiveScheduleIndex items now_opt = - 1 \<longleftrightarrow> items = [] \<or> now_opt = None)
   \<and> ((\<exists>t \<in> set items. status t = live) \<longrightarrow>
        (\<exists>k < length items. getActiveScheduleIndex items (Some now) = int k
           \<and> status (items ! k) = live \<and> (\<forall>j < k. status (items ! j) \<noteq> live)))
   \<and> ((\<forall>t \<in> set items. status t \<noteq> live) \<and> (\<exists>t \<in> set items. date_gt (startDate t) now) \<longrightarrow>
        (\<exists>k < length items. getActiveScheduleIndex items (Some now) = int k
           \<and> date_gt (startDate (items ! k)) now
           \<and> (\<forall>j < k. \<not> date_gt (startDate (items ! j)) now)))
   \<and> (items \<noteq> [] \<and> (\<forall>t \<in> set items. status t \<noteq> live \<and> \<not> date_gt (startDate t) now) \<longrightarrow>
        getActiveScheduleIndex items (Some now) = int (length items) - 1)
   \<and> (sched \<noteq> []
        \<and> (\<forall>t \<in> set (buildTimedSchedule new_Date sched (Some now)).
              status t = past \<and> \<not> date_lt (endDate t) (startDate t)) \<longrightarrow>
        getActiveScheduleIndex (buildTimedSchedule new_Date sched (Some now)) (Some now)
          = int (length sched) - 1)"
proof (intro conjI impI)
  show "getActiveScheduleIndex items now_opt = - 1 \<longleftrightarrow> items = [] \<or> now_opt = None"
    by (rule active_none)
next
  assume ex: "\<exists>t \<in> set items. status t = live"
  show "\<exists>k < length items. getActiveScheduleIndex items (Some now) = int k
           \<and> status (items ! k) = live \<and> (\<forall>j < k. status (items ! j) \<noteq> live)"
    using findIndex_first [of items "\<lambda>item. status item = live", OF ex]
    by (simp add: active_live [OF ex])
next
  assume a: "(\<forall>t \<in> set items. status t \<noteq> live) \<and> (\<exists>t \<in> set items. date_gt (startDate t) now)"
  then have ex: "\<exists>t \<in> set items. date_gt (startDate t) now" and no: "\<forall>t \<in> set items. status t \<noteq> live"
    by simp_all
  show "\<exists>k < length items. getActiveScheduleIndex items (Some now) = int k
           \<and> date_gt (startDate (items ! k)) now
           \<and> (\<forall>j < k. \<not> date_gt (startDate (items ! j)) now)"
    using findIndex_first [of items "\<lambda>item. date_gt (startDate item) now", OF ex]
    by (simp add: active_upcoming [OF no ex])
next
  assume "items \<noteq> [] \<and> (\<forall>t \<in> set items. status t \<noteq> live \<and> \<not> date_gt (startDate t) now)"
  then show "getActiveScheduleIndex items (Some now) = int (length items) - 1"
    by (simp add: active_last)
next
  let ?out = "buildTimedSchedule new_Date sched (Some now)"
  assume a: "sched \<noteq> [] \<and> (\<forall>t \<in> set ?out. status t = past \<and> \<not> date_lt (endDate t) (startDate t))"
  have len: "length ?out = length sched"
    by (simp add: buildTimedSchedule_def length_Array_sort)
  with a have ne: "?out \<noteq> []" by auto
  have "\<forall>t \<in> set ?out. status t \<noteq> live \<and> \<not> date_gt (startDate t) now"
  proof
    fix t assume t: "t \<in> set ?out"
    with a have p: "status t = past" and w: "\<not> date_lt (endDate t) (startDate t)" by simp_all
    from past_has_ended [OF t p] w have "\<not> date_gt (startDate t) now"
      by (rule past_not_after)
    with p show "status t \<noteq> live \<and> \<not> date_gt (startDate t) now" by simp
  qed
  with ne have "getActiveScheduleIndex ?out (Some now) = int (length ?out) - 1"
    by (rule active_last)
  with len show "getActiveScheduleIndex ?out (Some now) = int (length sched) - 1" by simp
qed

theorem active_index_selection_witness:
  "getActiveScheduleIndex [] (Some (Date (Finite 4000))) = - 1
   \<and> map status (buildTimedSchedule sample_Date two_talks (Some (Date (Finite 4000)))) = [live, upcoming]
   \<and> getActiveScheduleIndex (buildTimedSchedule sample_Date two_talks (Some (Date (Finite 4000))))
         (Some (Date (Finite 4000))) = 0
   \<and> map status (buildTimedSchedule sample_Date two_talks (Some (Date (Finite 1000)))) = [upcoming, upcoming]
   \<and> getActiveScheduleIndex (buildTimedSchedule sample_Date two_talks (Some (Date (Finite 1000))))
         (Some (Date (Finite 1000))) = 0
   \<and> two_talks \<noteq> []
   \<and> map status (buildTimedSchedule sample_Date two_talks (Some (Date (Finite 9000)))) = [past, past]
   \<and> startTimes (buildTimedSchedule sample_Date two_talks (Some (Date (Finite 9000))))
        = [Finite 3000, Finite 5000]
   \<and> map endDate (buildTimedSchedule sample_Date two_talks (Some (Date (Finite 9000))))
        = [Date (Finite 5000), Date (Finite 6000)]
   \<and> getActiveScheduleIndex (buildTimedSchedule sample_Date two_talks (Some (Date (Finite 9000))))
         (Some (Date (Finite 9000))) = 1
   \<and> map status (buildTimedSchedule sample_Date one_unparsed (Some (Date (Finite 9000)))) = [past, past]
   \<and> startTimes (buildTimedSchedule sample_Date one_unparsed (Some (Date (Finite 9000))))
        = [Finite 1000, NaN]
   \<and> getActiveScheduleIndex (buildTimedSchedule sample_Date one_unparsed (Some (Date (Finite 9000))))
         (Some (Date (Finite 9000))) = 1"
  using active_index_selection [where items = "[]" and now_opt = "Some (Date (Finite 4000))"]
    active_index_selection [where now = "Date (Finite 9000)" and new_Date = sample_Date
      and sched = one_unparsed]
    active_index_selection [where now = "Date (Finite 4000)"
      and items = "buildTimedSchedule sample_Date two_talks (Some (Date (Finite 4000)))"]
    active_index_selection [where now = "Date (Finite 1000)"
      and items = "buildTimedSchedule sample_Date two_talks (Some (Date (Finite 1000)))"]
    active_index_selection [where now = "Date (Finite 9000)" and new_Date = sample_Date
      and sched = two_talks
      and items = "buildTimedSchedule sample_Date two_talks (Some (Date (Finite 9000)))"]
  by (simp add: two_talks_def one_unparsed_def buildTimedSchedule_def timedItem_def talk_def
       sample_Date_values Let_def date_ge_def date_lt_def date_gt_def date_le_def byStart_def
       SortCompare_def getActiveScheduleIndex_def startTimes_def time_diff_def
       round_double_def)

text \<open>
  C4 as stated fails on items that end before they start: at 7 s, two talks running
  from 8 s to 5 s and from 9 s to 6 s are both past, and the active index is that of the
  first, whose start is after the clock, not that of the last.
\<close>

theorem all_past_yet_first_is_active:
  "map status (buildTimedSchedule sample_Date reversed_talks (Some (Date (Finite 7000)))) = [past, past]
   \<and> getActiveScheduleIndex (buildTimedSchedule sample_Date reversed_talks (Some (Date (Finite 7000))))
         (Some (Date (Finite 7000))) = 0
   \<and> int (length (buildTimedSchedule sample_Date reversed_talks (Some (Date (Finite 7000))))) - 1 = 1"
  by (simp add: reversed_talks_def buildTimedSchedule_def timedItem_def talk_def sample_Date_values
       Let_def date_ge_def date_lt_def date_gt_def byStart_def SortCompare_def
       getActiveScheduleIndex_def time_diff_def round_double_def)

subsection \<open>The visible items\<close>

lemma visibleItems_dropWhile: "visibleItems items = dropWhile (\<lambda>t. status t = past) items"
proof (cases "\<exists>t \<in> set items. status t \<noteq> past")
  case True
  then have "firstVisibleIndex items = int (length (takeWhile (\<lambda>t. status t = past) items))"
    using findIndex_takeWhile [of items "\<lambda>t. status t \<noteq> past"]
    by (simp add: firstVisibleIndex_def)
  then show ?thesis
    by (simp add: visibleItems_def dropWhile_eq_drop)
next
  case False
  then have idx: "firstVisibleIndex items = - 1"
    by (simp add: firstVisibleIndex_def findIndex_none)
  from False have dw: "dropWhile (\<lambda>t. status t = past) items = []"
    by (simp add: dropWhile_eq_Nil_conv)
  have "visibleItems items = []"
    using idx by (simp add: visibleItems_def)
  with dw show ?thesis
    by (simp only:)
qed

text \<open>
  C5. The visible items are the list without its leading run of past items: the suffix
  that begins at the first item that is not past. Nothing is visible when every item is
  past, and an item that comes after an item that is not past stays visible, whatever
  its own status.
\<close>

theorem visible_items_suffix:
  "visibleItems items = dropWhile (\<lambda>t. status t = past) items
   \<and> takeWhile (\<lambda>t. status t = past) items @ visibleItems items = items
   \<and> ((\<forall>t \<in> set items. status t = past) \<longrightarrow> visibleItems items = [])
   \<and> ((\<forall>t \<in> set pre. status t = past) \<and> status x \<noteq> past \<longrightarrow>
        visibleItems (pre @ x # post) = x # post)
   \<and> (status y \<noteq> past \<longrightarrow>
        (\<exists>dropped. visibleItems (before @ y # after) = dropped @ y # after))"
proof (intro conjI impI)
  show "visibleItems items = dropWhile (\<lambda>t. status t = past) items"
    by (rule visibleItems_dropWhile)
next
  show "takeWhile (\<lambda>t. status t = past) items @ visibleItems items = items"
    by (simp add: visibleItems_dropWhile)
next
  assume "\<forall>t \<in> set items. status t = past"
  then show "visibleItems items = []"
    by (simp add: visibleItems_dropWhile dropWhile_eq_Nil_conv)
next
  assume "(\<forall>t \<in> set pre. status t = past) \<and> status x \<noteq> past"
  then show "visibleItems (pre @ x # post) = x # post"
    by (simp add: visibleItems_dropWhile dropWhile_append2)
next
  assume "status y \<noteq> past"
  then have "visibleItems (before @ y # after)
               = dropWhile (\<lambda>t. status t = past) before @ y # after"
    by (simp add: visibleItems_dropWhile dropWhile_append3)
  then show "\<exists>dropped. visibleItems (before @ y # after) = dropped @ y # after"
    by blast
qed

theorem visible_items_suffix_witness:
  "map status [timed 1 past, timed 2 past] = [past, past]
   \<and> visibleItems [timed 1 past, timed 2 past] = []
   \<and> status (timed 1 past) = past \<and> status (timed 2 live) \<noteq> past
   \<and> visibleItems ([timed 1 past] @ timed 2 live # [timed 3 past, timed 4 upcoming])
        = timed 2 live # [timed 3 past, timed 4 upcoming]
   \<and> status (timed 4 upcoming) \<noteq> past
   \<and> visibleItems ([timed 1 past, timed 2 live, timed 3 past] @ timed 4 upcoming # [])
        = [timed 2 live, timed 3 past] @ timed 4 upcoming # []"
  using visible_items_suffix [where items = "[timed 1 past, timed 2 past]"
      and pre = "[timed 1 past]" and x = "timed 2 live"
      and post = "[timed 3 past, timed 4 upcoming]"
      and before = "[timed 1 past, timed 2 live, timed 3 past]" and y = "timed 4 upcoming"
      and after = "[]"]
  by (simp add: timed_def)

subsection \<open>The poll\<close>

lemma catch_default_not_threw:
  "\<not> threw r \<Longrightarrow> catch_default d r = Inr (case r of Fulfilled v \<Rightarrow> v | _ \<Rightarrow> d)"
  by (cases r) simp_all

lemma fetchTvData_settled:
  assumes "\<not> threw (sponsors_request rq)" and "\<not> threw (schedule_request rq)"
    and "\<not> threw (wifi_request rq)" and "\<not> threw (hackingtime_request rq)"
    and "\<not> threw (announcement_request rq)"
  shows "fetchTvData rq =
     Inr \<lparr>sponsors = (case sponsors_request rq of Fulfilled (Some v) \<Rightarrow> v | _ \<Rightarrow> []),
          schedule = (case schedule_request rq of Fulfilled (Some v) \<Rightarrow> v | _ \<Rightarrow> []),
          wifi = (case wifi_request rq of Fulfilled v \<Rightarrow> v | _ \<Rightarrow> None),
          hacking = (case hackingtime_request rq of Fulfilled v \<Rightarrow> v | _ \<Rightarrow> None),
          announcement = (case announcement_request rq of Fulfilled v \<Rightarrow> v | _ \<Rightarrow> None)\<rparr>"
proof -
  have l: "nullish (case r of Fulfilled v \<Rightarrow> v | _ \<Rightarrow> Some []) []
             = (case r of Fulfilled (Some v) \<Rightarrow> v | _ \<Rightarrow> [])" for r :: "'b list option request"
    by (cases r) (simp_all split: option.splits)
  show ?thesis
    by (simp add: fetchTvData_def catch_default_not_threw assms l)
qed

lemma fetchTvData_all_rejected: "fetchTvData (all_rejected e) = Inr initial_data"
  by (simp add: fetchTvData_def all_rejected_def initial_data_def)

text \<open>
  C7. When none of the five request expressions throws, \<^verbatim>\<open>fetchTvData\<close> returns a
  snapshot, and each field is decided by its own request alone: the fulfilled value, or
  the default (the empty list for sponsors and schedule, null for wifi, hackingtime and
  announcement) when the request was rejected or fulfilled with null. With the wifi
  request rejected and the other four fulfilled, the snapshot has no wifi and the four
  fulfilled values.
\<close>

theorem fetch_defaults_per_resource:
  "(\<not> threw (sponsors_request rq) \<and> \<not> threw (schedule_request rq)
      \<and> \<not> threw (wifi_request rq) \<and> \<not> threw (hackingtime_request rq)
      \<and> \<not> threw (announcement_request rq) \<longrightarrow>
    fetchTvData rq =
     Inr \<lparr>sponsors = (case sponsors_request rq of Fulfilled (Some v) \<Rightarrow> v | _ \<Rightarrow> []),
          schedule = (case schedule_request rq of Fulfilled (Some v) \<Rightarrow> v | _ \<Rightarrow> []),
          wifi = (case wifi_request rq of Fulfilled v \<Rightarrow> v | _ \<Rightarrow> None),
          hacking = (case hackingtime_request rq of Fulfilled v \<Rightarrow> v | _ \<Rightarrow> None),
          announcement = (case announcement_request rq of Fulfilled v \<Rightarrow> v | _ \<Rightarrow> None)\<rparr>)
   \<and> fetchTvData \<lparr>sponsors_request = Fulfilled (Some sps), schedule_request = Fulfilled (Some sch),
          wifi_request = Rejected e, hackingtime_request = Fulfilled hk,
          announcement_request = Fulfilled an\<rparr>
       = Inr \<lparr>sponsors = sps, schedule = sch, wifi = None, hacking = hk, announcement = an\<rparr>"
proof (intro conjI impI)
  assume "\<not> threw (sponsors_request rq) \<and> \<not> threw (schedule_request rq)
      \<and> \<not> threw (wifi_request rq) \<and> \<not> threw (hackingtime_request rq)
      \<and> \<not> threw (announcement_request rq)"
  then show "fetchTvData rq =
     Inr \<lparr>sponsors = (case sponsors_request rq of Fulfilled (Some v) \<Rightarrow> v | _ \<Rightarrow> []),
          schedule = (case schedule_request rq of Fulfilled (Some v) \<Rightarrow> v | _ \<Rightarrow> []),
          wifi = (case wifi_request rq of Fulfilled v \<Rightarrow> v | _ \<Rightarrow> None),
          hacking = (case hackingtime_request rq of Fulfilled v \<Rightarrow> v | _ \<Rightarrow> None),
          announcement = (case announcement_request rq of Fulfilled v \<Rightarrow> v | _ \<Rightarrow> None)\<rparr>"
    by (intro fetchTvData_settled) simp_all
next
  show "fetchTvData \<lparr>sponsors_request = Fulfilled (Some sps), schedule_request = Fulfilled (Some sch),
          wifi_request = Rejected e, hackingtime_request = Fulfilled hk,
          announcement_request = Fulfilled an\<rparr>
       = Inr \<lparr>sponsors = sps, schedule = sch, wifi = None, hacking = hk, announcement = an\<rparr>"
    by (simp add: fetchTvData_def)
qed

theorem fetch_defaults_per_resource_witness:
  "\<not> threw (sponsors_request (all_rejected TypeError))
   \<and> \<not> threw (schedule_request (all_rejected TypeError))
   \<and> \<not> threw (wifi_request (all_rejected TypeError))
   \<and> \<not> threw (hackingtime_request (all_rejected TypeError))
   \<and> \<not> threw (announcement_request (all_rejected TypeError))
   \<and> fetchTvData (all_rejected TypeError)
       = Inr \<lparr>sponsors = [], schedule = [], wifi = None, hacking = None, announcement = None\<rparr>"
  using fetch_defaults_per_resource [where rq = "all_rejected TypeError"]
  by (simp add: all_rejected_def)

lemma catch_default_Inl: "catch_default d r = Inl e \<longleftrightarrow> r = Threw e"
  by (cases r) simp_all

lemma threw_iff: "threw r \<longleftrightarrow> (\<exists>e. r = Threw e)"
  by (cases r) simp_all

lemma fetchTvData_fails_iff:
  "(\<exists>err. fetchTvData rq = Inl err) \<longleftrightarrow>
     threw (sponsors_request rq) \<or> threw (schedule_request rq) \<or> threw (wifi_request rq)
     \<or> threw (hackingtime_request rq) \<or> threw (announcement_request rq)"
  by (auto simp: fetchTvData_def threw_iff catch_default_Inl split: sum.splits)

lemma load_success:
  "fetchTvData rq = Inr d \<Longrightarrow>
   load rq v = (if cancelled v then v else v\<lparr>data := d, isLoading := False\<rparr>)"
  by (simp add: load_def)

lemma load_failure:
  "fetchTvData rq = Inl err \<Longrightarrow>
   load rq v =
     (if cancelled v
      then v\<lparr>console_error := console_error v @ [(''Failed to load TV data'', err)]\<rparr>
      else v\<lparr>console_error := console_error v @ [(''Failed to load TV data'', err)],
             isLoading := False\<rparr>)"
  by (simp add: load_def Let_def)

lemma load_logs_iff:
  "console_error (load rq v) \<noteq> console_error v \<longleftrightarrow> (\<exists>err. fetchTvData rq = Inl err)"
  by (cases "fetchTvData rq") (simp_all add: load_success load_failure)

lemma fetchTvData_five_rejected:
  "fetchTvData \<lparr>sponsors_request = Rejected ea, schedule_request = Rejected eb,
       wifi_request = Rejected ec, hackingtime_request = Rejected ed,
       announcement_request = Rejected ee\<rparr> = Inr initial_data"
  by (simp add: fetchTvData_def initial_data_def)

text \<open>
  C6 (amended). When all five requests of a poll are rejected, \<^verbatim>\<open>fetchTvData\<close> succeeds
  with the five defaults: unless the effect is cancelled, the snapshot is replaced by the
  empty one and the loading flag becomes false; no error is logged. So it is with every
  poll in which \<^verbatim>\<open>fetchTvData\<close> succeeds: its snapshot replaces the one shown and nothing
  is logged. When \<^verbatim>\<open>fetchTvData\<close> fails, the error is logged, the snapshot stays as it
  was and, unless the effect is cancelled, the loading flag becomes false. It fails
  exactly when one of the five request expressions throws, never on a rejection, and an
  error is logged exactly then.
\<close>

theorem poll_failure_outcomes:
  "load \<lparr>sponsors_request = Rejected ea, schedule_request = Rejected eb,
         wifi_request = Rejected ec, hackingtime_request = Rejected ed,
         announcement_request = Rejected ee\<rparr> v
     = (if cancelled v then v else v\<lparr>data := initial_data, isLoading := False\<rparr>)
   \<and> (fetchTvData rq = Inr d \<longrightarrow>
        load rq v = (if cancelled v then v else v\<lparr>data := d, isLoading := False\<rparr>))
   \<and> (fetchTvData rq = Inl err \<longrightarrow>
        load rq v =
          (if cancelled v
           then v\<lparr>console_error := console_error v @ [(''Failed to load TV data'', err)]\<rparr>
           else v\<lparr>console_error := console_error v @ [(''Failed to load TV data'', err)],
                  isLoading := False\<rparr>))
   \<and> ((\<exists>err. fetchTvData rq = Inl err) \<longleftrightarrow>
        threw (sponsors_request rq) \<or> threw (schedule_request rq) \<or> threw (wifi_request rq)
        \<or> threw (hackingtime_request rq) \<or> threw (announcement_request rq))
   \<and> (console_error (load rq v) \<noteq> console_error v \<longleftrightarrow>
        threw (sponsors_request rq) \<or> threw (schedule_request rq) \<or> threw (wifi_request rq)
        \<or> threw (hackingtime_request rq) \<or> threw (announcement_request rq))"
proof (intro conjI impI)
  show "load \<lparr>sponsors_request = Rejected ea, schedule_request = Rejected eb,
         wifi_request = Rejected ec, hackingtime_request = Rejected ed,
         announcement_request = Rejected ee\<rparr> v
     = (if cancelled v then v else v\<lparr>data := initial_data, isLoading := False\<rparr>)"
    by (rule load_success) (rule fetchTvData_five_rejected)
next
  assume "fetchTvData rq = Inr d"
  then show "load rq v = (if cancelled v then v else v\<lparr>data := d, isLoading := False\<rparr>)"
    by (rule load_success)
next
  assume "fetchTvData rq = Inl err"
  then show "load rq v =
          (if cancelled v
           then v\<lparr>console_error := console_error v @ [(''Failed to load TV data'', err)]\<rparr>
           else v\<lparr>console_error := console_error v @ [(''Failed to load TV data'', err)],
                  isLoading := False\<rparr>)"
    by (rule load_failure)
next
  show "(\<exists>err. fetchTvData rq = Inl err) \<longleftrightarrow>
        threw (sponsors_request rq) \<or> threw (schedule_request rq) \<or> threw (wifi_request rq)
        \<or> threw (hackingtime_request rq) \<or> threw (announcement_request rq)"
    by (rule fetchTvData_fails_iff)
next
  show "console_error (load rq v) \<noteq> console_error v \<longleftrightarrow>
        threw (sponsors_request rq) \<or> threw (schedule_request rq) \<or> threw (wifi_request rq)
        \<or> threw (hackingtime_request rq) \<or> threw (announcement_request rq)"
    by (simp only: load_logs_iff fetchTvData_fails_iff)
qed

theorem poll_failure_outcomes_witness:
  "cancelled showing_wifi = False
   \<and> load (all_rejected TypeError) showing_wifi
       = showing_wifi\<lparr>data := initial_data, isLoading := False\<rparr>
   \<and> fetchTvData (all_rejected TypeError) = Inr initial_data
   \<and> console_error (load (all_rejected TypeError) showing_wifi) = []
   \<and> fetchTvData (first_throws TypeError) = Inl TypeError
   \<and> load (first_throws TypeError) showing_wifi
       = showing_wifi\<lparr>console_error := [(''Failed to load TV data'', TypeError)],
                      isLoading := False\<rparr>
   \<and> data (load (first_throws TypeError) showing_wifi) = data showing_wifi"
  using poll_failure_outcomes [where v = showing_wifi and rq = "all_rejected TypeError"
      and d = initial_data and ea = TypeError and eb = TypeError and ec = TypeError
      and ed = TypeError and ee = TypeError]
    poll_failure_outcomes [where v = showing_wifi and rq = "first_throws TypeError"
      and err = TypeError]
  by (simp add: showing_wifi_def first_throws_def all_rejected_def fetchTvData_def
        initial_data_def)

text \<open>
  C6 as stated fails: a view that shows the Wi-Fi of an earlier poll loses it in a poll
  whose five requests are all rejected, and nothing is logged.
\<close>

theorem all_rejected_replaces_snapshot:
  "data (load (all_rejected (RequestError ''offline'')) showing_wifi) \<noteq> data showing_wifi
   \<and> wifi (data (load (all_rejected (RequestError ''offline'')) showing_wifi)) = None
   \<and> console_error (load (all_rejected (RequestError ''offline'')) showing_wifi) = []"
  by (simp add: load_def fetchTvData_all_rejected showing_wifi_def initial_data_def)

subsection \<open>The sponsor groups\<close>

lemma mainSponsor_first:
  "\<forall>s \<in> set pre. level s \<noteq> root \<Longrightarrow> level a = root \<Longrightarrow> mainSponsor (pre @ a # rest) = Some a"
  by (induction pre) (simp_all add: mainSponsor_def)

lemma mainSponsor_None: "mainSponsor sps = None \<longleftrightarrow> (\<forall>s \<in> set sps. level s \<noteq> root)"
  by (auto simp: mainSponsor_def find_None_iff)

lemma mainSponsor_Some: "mainSponsor sps = Some a \<Longrightarrow> a \<in> set sps \<and> level a = root"
  by (auto simp: mainSponsor_def find_Some_iff)

lemma levels_partition:
  "filter_mset (\<lambda>s. level s = admin) M + filter_mset (\<lambda>s. level s = user) M
     + filter_mset (\<lambda>s. level s = collaborator) M + filter_mset (\<lambda>s. level s = root) M = M"
proof (induction M)
  case empty
  then show ?case by simp
next
  case (add x M)
  then show ?case by (cases "level x") simp_all
qed

text \<open>
  C8. The main sponsor and the three lists are pairwise disjoint. Each list holds the
  sponsors of its level (admin, user, collaborator), each as often as the input does and
  in the order of the input, so that every sponsor of the input is in exactly one of the
  lists or has level root. There is a main sponsor exactly when some sponsor has level
  root, and it is the first of them in the input, whatever follows it. Of two sponsors
  of level root the first one in the input is the main sponsor, and the second is in
  none of the three lists.
\<close>

theorem sponsor_groups:
  "set_option (mainSponsor sps) \<inter> set (secondarySponsors sps) = {}
   \<and> set_option (mainSponsor sps) \<inter> set (thirdTierSponsors sps) = {}
   \<and> set_option (mainSponsor sps) \<inter> set (collaboratorSponsors sps) = {}
   \<and> set (secondarySponsors sps) \<inter> set (thirdTierSponsors sps) = {}
   \<and> set (secondarySponsors sps) \<inter> set (collaboratorSponsors sps) = {}
   \<and> set (thirdTierSponsors sps) \<inter> set (collaboratorSponsors sps) = {}
   \<and> mset (secondarySponsors sps) = filter_mset (\<lambda>s. level s = admin) (mset sps)
   \<and> mset (thirdTierSponsors sps) = filter_mset (\<lambda>s. level s = user) (mset sps)
   \<and> mset (collaboratorSponsors sps) = filter_mset (\<lambda>s. level s = collaborator) (mset sps)
   \<and> mset (secondarySponsors sps) + mset (thirdTierSponsors sps)
        + mset (collaboratorSponsors sps) + filter_mset (\<lambda>s. level s = root) (mset sps)
       = mset sps
   \<and> subseq (secondarySponsors sps) sps
   \<and> subseq (thirdTierSponsors sps) sps
   \<and> subseq (collaboratorSponsors sps) sps
   \<and> (mainSponsor sps = None \<longleftrightarrow> (\<forall>s \<in> set sps. level s \<noteq> root))
   \<and> ((\<forall>s \<in> set front. level s \<noteq> root) \<and> level m = root \<longrightarrow>
        mainSponsor (front @ m # rest) = Some m)
   \<and> ((\<forall>s \<in> set pre. level s \<noteq> root) \<and> level a = root \<and> level b = root \<longrightarrow>
        mainSponsor (pre @ a # mid @ b # post) = Some a
        \<and> b \<notin> set (secondarySponsors (pre @ a # mid @ b # post))
        \<and> b \<notin> set (thirdTierSponsors (pre @ a # mid @ b # post))
        \<and> b \<notin> set (collaboratorSponsors (pre @ a # mid @ b # post)))"
proof -
  have m: "set_option (mainSponsor sps) \<subseteq> {s \<in> set sps. level s = root}"
    using mainSponsor_Some [of sps] by (cases "mainSponsor sps") simp_all
  have g: "set (secondarySponsors sps) = {s \<in> set sps. level s = admin}"
    "set (thirdTierSponsors sps) = {s \<in> set sps. level s = user}"
    "set (collaboratorSponsors sps) = {s \<in> set sps. level s = collaborator}"
    by (simp_all add: secondarySponsors_def thirdTierSponsors_def collaboratorSponsors_def)
  have d: "set_option (mainSponsor sps) \<inter> set (secondarySponsors sps) = {}"
    "set_option (mainSponsor sps) \<inter> set (thirdTierSponsors sps) = {}"
    "set_option (mainSponsor sps) \<inter> set (collaboratorSponsors sps) = {}"
    "set (secondarySponsors sps) \<inter> set (thirdTierSponsors sps) = {}"
    "set (secondarySponsors sps) \<inter> set (collaboratorSponsors sps) = {}"
    "set (thirdTierSponsors sps) \<inter> set (collaboratorSponsors sps) = {}"
    using m unfolding g by auto
  have c: "mset (secondarySponsors sps) = filter_mset (\<lambda>s. level s = admin) (mset sps)"
    "mset (thirdTierSponsors sps) = filter_mset (\<lambda>s. level s = user) (mset sps)"
    "mset (collaboratorSponsors sps) = filter_mset (\<lambda>s. level s = collaborator) (mset sps)"
    by (simp_all add: secondarySponsors_def thirdTierSponsors_def collaboratorSponsors_def)
  have p: "mset (secondarySponsors sps) + mset (thirdTierSponsors sps)
        + mset (collaboratorSponsors sps) + filter_mset (\<lambda>s. level s = root) (mset sps)
       = mset sps"
    unfolding c by (rule levels_partition)
  have o: "subseq (secondarySponsors sps) sps" "subseq (thirdTierSponsors sps) sps"
    "subseq (collaboratorSponsors sps) sps"
    by (simp_all add: secondarySponsors_def thirdTierSponsors_def collaboratorSponsors_def)
  have f: "(\<forall>s \<in> set front. level s \<noteq> root) \<and> level m = root \<longrightarrow>
        mainSponsor (front @ m # rest) = Some m"
    by (simp add: mainSponsor_first)
  have t: "(\<forall>s \<in> set pre. level s \<noteq> root) \<and> level a = root \<and> level b = root \<longrightarrow>
        mainSponsor (pre @ a # mid @ b # post) = Some a
        \<and> b \<notin> set (secondarySponsors (pre @ a # mid @ b # post))
        \<and> b \<notin> set (thirdTierSponsors (pre @ a # mid @ b # post))
        \<and> b \<notin> set (collaboratorSponsors (pre @ a # mid @ b # post))"
    by (simp add: mainSponsor_first secondarySponsors_def thirdTierSponsors_def
          collaboratorSponsors_def)
  from d c p o f t mainSponsor_None [of sps] show ?thesis
    by (intro conjI)
qed

theorem sponsor_groups_witness:
  "level (sponsor 1 admin) \<noteq> root
   \<and> level (sponsor 2 root) = root \<and> level (sponsor 3 root) = root
   \<and> mainSponsor ([sponsor 1 admin] @ sponsor 2 root # [sponsor 4 user]) = Some (sponsor 2 root)
   \<and> mainSponsor ([sponsor 1 admin] @ sponsor 2 root # [sponsor 4 user] @ sponsor 3 root # [sponsor 5 collaborator])
        = Some (sponsor 2 root)
   \<and> secondarySponsors ([sponsor 1 admin] @ sponsor 2 root # [sponsor 4 user] @ sponsor 3 root # [sponsor 5 collaborator])
        = [sponsor 1 admin]
   \<and> thirdTierSponsors ([sponsor 1 admin] @ sponsor 2 root # [sponsor 4 user] @ sponsor 3 root # [sponsor 5 collaborator])
        = [sponsor 4 user]
   \<and> collaboratorSponsors ([sponsor 1 admin] @ sponsor 2 root # [sponsor 4 user] @ sponsor 3 root # [sponsor 5 collaborator])
        = [sponsor 5 collaborator]"
  using sponsor_groups [where pre = "[sponsor 1 admin]" and a = "sponsor 2 root"
      and mid = "[sponsor 4 user]" and b = "sponsor 3 root" and post = "[sponsor 5 collaborator]"
      and front = "[sponsor 1 admin]" and m = "sponsor 2 root" and rest = "[sponsor 4 user]"
      and sps = "[sponsor 1 admin]"]
  by (simp add: sponsor_def mainSponsor_def secondarySponsors_def thirdTierSponsors_def
        collaboratorSponsors_def)

subsection \<open>The asset URL\<close>

lemma strip_trailing_slash_example: "strip_trailing_slash ''https://cms.example/'' = ''https://cms.example''"
  by (simp add: strip_trailing_slash_def)

text \<open>
  C9. With a configured base URL the resolver returns a string for every identifier,
  whatever the URL constructor does. Without an identifier, or with the empty one, it
  returns the empty string. For \<^verbatim>\<open>abc\<close> and the base \<^verbatim>\<open>https://cms.example/\<close> it returns
  \<^verbatim>\<open>https://cms.example/assets/abc\<close>, the URL the constructor resolves to, and also the
  fallback if the constructor throws. Where the constructor throws, the result is the
  base without a trailing slash, followed by \<^verbatim>\<open>/assets/\<close> and the identifier; where
  it does not, the result is the constructed URL.
\<close>

theorem getAssetUrl_total:
  "(\<exists>u. getAssetUrl new_URL (Some base) id_opt = Inr u)
   \<and> getAssetUrl new_URL base_opt None = Inr ''''
   \<and> getAssetUrl new_URL base_opt (Some '''') = Inr ''''
   \<and> (new_URL ''/assets/abc'' (Some ''https://cms.example/'') = Inr ''https://cms.example/assets/abc''
        \<or> (\<exists>err. new_URL ''/assets/abc'' (Some ''https://cms.example/'') = Inl err) \<longrightarrow>
      getAssetUrl new_URL (Some ''https://cms.example/'') (Some ''abc'')
        = Inr ''https://cms.example/assets/abc'')
   \<and> (ident \<noteq> '''' \<and> new_URL (''/assets/'' @ ident) (Some base) = Inl err \<longrightarrow>
      getAssetUrl new_URL (Some base) (Some ident)
        = Inr (strip_trailing_slash base @ ''/assets/'' @ ident))
   \<and> (ident \<noteq> '''' \<and> new_URL (''/assets/'' @ ident) (Some base) = Inr href \<longrightarrow>
      getAssetUrl new_URL (Some base) (Some ident) = Inr href)"
proof (intro conjI impI)
  show "\<exists>u. getAssetUrl new_URL (Some base) id_opt = Inr u"
    by (simp add: getAssetUrl_def split: option.splits sum.splits)
next
  show "getAssetUrl new_URL base_opt None = Inr ''''"
    by (simp add: getAssetUrl_def)
next
  show "getAssetUrl new_URL base_opt (Some '''') = Inr ''''"
    by (simp add: getAssetUrl_def)
next
  assume "new_URL ''/assets/abc'' (Some ''https://cms.example/'') = Inr ''https://cms.example/assets/abc''
        \<or> (\<exists>err. new_URL ''/assets/abc'' (Some ''https://cms.example/'') = Inl err)"
  then show "getAssetUrl new_URL (Some ''https://cms.example/'') (Some ''abc'')
        = Inr ''https://cms.example/assets/abc''"
    by (auto simp: getAssetUrl_def strip_trailing_slash_example)
next
  assume "ident \<noteq> '''' \<and> new_URL (''/assets/'' @ ident) (Some base) = Inl err"
  then show "getAssetUrl new_URL (Some base) (Some ident)
        = Inr (strip_trailing_slash base @ ''/assets/'' @ ident)"
    by (simp add: getAssetUrl_def)
next
  assume "ident \<noteq> '''' \<and> new_URL (''/assets/'' @ ident) (Some base) = Inr href"
  then show "getAssetUrl new_URL (Some base) (Some ident) = Inr href"
    by (simp add: getAssetUrl_def)
qed

theorem getAssetUrl_total_witness:
  "sample_URL ''/assets/abc'' (Some ''https://cms.example/'') = Inr ''https://cms.example/assets/abc''
   \<and> getAssetUrl sample_URL (Some ''https://cms.example/'') (Some ''abc'')
        = Inr ''https://cms.example/assets/abc''
   \<and> ''abc'' \<noteq> '''' \<and> sample_URL (''/assets/'' @ ''abc'') (Some ''cms.example/'') = Inl TypeError
   \<and> getAssetUrl sample_URL (Some ''cms.example/'') (Some ''abc'') = Inr ''cms.example/assets/abc''"
  using getAssetUrl_total [where new_URL = sample_URL and ident = "''abc''"
      and base = "''cms.example/''" and err = TypeError]
    getAssetUrl_total [where new_URL = sample_URL and ident = "''abc''"
      and base = "''https://cms.example/''" and href = "''https://cms.example/assets/abc''"]
  by (simp add: sample_URL_def strip_trailing_slash_def)

end
